theory Spec2Isabelle
  imports Main "HOL-Library.Sublist"
begin

section \<open>Python values used by the tree module\<close>

text \<open>
  The module \<^verbatim>\<open>regparser/tree/struct.py\<close> is Python 2. Strings are modelled as
  \<^typ>\<open>string\<close>, a list of characters with codes below 256. Where the source fixes
  whether a field holds a \<^verbatim>\<open>str\<close> or a \<^verbatim>\<open>unicode\<close> object (which only shows
  in \<^verbatim>\<open>repr\<close>), the model follows the source.

  The built-in \<^verbatim>\<open>repr\<close> of a \<^verbatim>\<open>str\<close>: single quotes, unless the string holds a
  single quote and no double quote; the quote and the backslash are escaped, tab, newline
  and carriage return are written \<^verbatim>\<open>\t\<close>, \<^verbatim>\<open>\n\<close>, \<^verbatim>\<open>\r\<close>, every other
  character outside the printable ASCII range as \<^verbatim>\<open>\xNN\<close>. For code points below 256
  the \<^verbatim>\<open>repr\<close> of a \<^verbatim>\<open>unicode\<close> object is the same text after the letter u.
\<close>

definition quote_for :: "string \<Rightarrow> char" where
  "quote_for s = (if CHR 0x27 \<in> set s \<and> CHR 0x22 \<notin> set s then CHR 0x22 else CHR 0x27)"

definition hex_digit :: "nat \<Rightarrow> char" where
  "hex_digit n = ''0123456789abcdef'' ! n"

definition escape_char :: "char \<Rightarrow> char \<Rightarrow> string" where
  "escape_char q c =
     (if c = q \<or> c = CHR 0x5C then [CHR 0x5C, c]
      else if c = CHR 0x09 then [CHR 0x5C, CHR ''t'']
      else if c = CHR 0x0A then [CHR 0x5C, CHR ''n'']
      else if c = CHR 0x0D then [CHR 0x5C, CHR ''r'']
      else if (of_char c :: nat) < 32 \<or> 127 \<le> (of_char c :: nat)
        then [CHR 0x5C, CHR ''x'', hex_digit (of_char c div 16), hex_digit (of_char c mod 16)]
      else [c])"

definition py_body :: "char \<Rightarrow> string \<Rightarrow> string" where
  "py_body q s = concat (map (escape_char q) s) @ [q]"

definition py_repr_str :: "string \<Rightarrow> string" where
  "py_repr_str s = (let q = quote_for s in q # py_body q s)"

definition py_repr_unicode :: "string \<Rightarrow> string" where
  "py_repr_unicode s = CHR ''u'' # py_repr_str s"

text \<open>
  The \<^verbatim>\<open>repr\<close> of a tuple, from the \<^verbatim>\<open>repr\<close>s of its items: \<^verbatim>\<open>()\<close>,
  \<^verbatim>\<open>(x,)\<close>, \<^verbatim>\<open>(x, y, z)\<close>.
\<close>

fun tuple_items :: "string list \<Rightarrow> string" where
  "tuple_items [] = '')''"
| "tuple_items (y # ys) = '', '' @ y @ tuple_items ys"

fun tuple_repr :: "string list \<Rightarrow> string" where
  "tuple_repr [] = ''()''"
| "tuple_repr [x] = ''('' @ x @ '',)''"
| "tuple_repr (x # xs) = ''('' @ x @ tuple_items xs"

text \<open>
  \<^verbatim>\<open>cmp\<close> on two strings: the sign of the lexicographic comparison by character code.
\<close>

fun py_cmp :: "string \<Rightarrow> string \<Rightarrow> int" where
  "py_cmp [] [] = 0"
| "py_cmp [] (y # ys) = - 1"
| "py_cmp (x # xs) [] = 1"
| "py_cmp (x # xs) (y # ys) =
     (if (of_char x :: nat) < of_char y then - 1
      else if (of_char y :: nat) < of_char x then 1
      else py_cmp xs ys)"

text \<open>\<^verbatim>\<open>x or ''\<close> for a string and for a string that may be \<^verbatim>\<open>None\<close>.\<close>

definition or_empty :: "string \<Rightarrow> string" where
  "or_empty s = (if s = [] then [] else s)"

definition opt_or_empty :: "string option \<Rightarrow> string" where
  "opt_or_empty t = (case t of None \<Rightarrow> [] | Some s \<Rightarrow> or_empty s)"

text \<open>The built-in exceptions that the functions of the module can raise.\<close>

datatype error = IndexError | TypeError | UnicodeEncodeError


section \<open>The mutable node\<close>

text \<open>
  \<^verbatim>\<open>class Node\<close>. The fields are those \<^verbatim>\<open>Node.__init__\<close> sets: \<^verbatim>\<open>text\<close>
  (here \<open>node_text\<close>, as \<open>text\<close> is a keyword of Isabelle), \<^verbatim>\<open>children\<close>,
  \<^verbatim>\<open>label\<close>, \<^verbatim>\<open>title\<close>, \<^verbatim>\<open>node_type\<close>, \<^verbatim>\<open>source_xml\<close>; and
  \<^verbatim>\<open>tagged_text\<close>, which other modules attach to a node and which
  \<^verbatim>\<open>FrozenNode.from_node\<close> reads with \<^verbatim>\<open>getattr\<close> (\<open>None\<close>: no such attribute).

  The type parameter says how a node refers to its children: by value in a tree that is
  only read (\<open>NodeTree\<close>), by address in the store of the functions that mutate nodes.
\<close>

datatype 'c Node = Node (node_text: string) (children: "'c list") (label: "string list")
  (title: "string option") (node_type: string) (source_xml: "string option")
  (tagged_text: "string option")

datatype NodeTree = Tree "NodeTree Node"

definition APPENDIX :: string where "APPENDIX = ''appendix''"
definition REGTEXT :: string where "REGTEXT = ''regtext''"
definition SUBPART :: string where "SUBPART = ''subpart''"
definition EMPTYPART :: string where "EMPTYPART = ''emptypart''"
definition INTERP_MARK :: string where "INTERP_MARK = ''Interp''"

text \<open>
  What \<^verbatim>\<open>Node.__init__\<close> guarantees of the node it builds, and of a tree whose nodes
  were all built by it: no empty label segment, and a title that is \<^verbatim>\<open>None\<close> or not
  empty.
\<close>

fun init_invariant :: "NodeTree \<Rightarrow> bool" where
  "init_invariant (Tree (Node t cs l ti nt sx tt)) =
     ([] \<notin> set l \<and> ti \<noteq> Some [] \<and> list_all init_invariant cs)"


section \<open>The frozen node\<close>

text \<open>
  \<^verbatim>\<open>class FrozenNode\<close>, with the private attributes \<^verbatim>\<open>_text\<close>, \<^verbatim>\<open>_children\<close>,
  \<^verbatim>\<open>_label\<close>, \<^verbatim>\<open>_title\<close>, \<^verbatim>\<open>_node_type\<close>, \<^verbatim>\<open>_tagged_text\<close>.
\<close>

datatype FrozenNode = FrozenNode (f_text: string) (f_children: "FrozenNode list")
  (f_label: "string list") (f_title: string) (f_node_type: string) (f_tagged_text: string)

definition FrozenNode_init ::
  "string \<Rightarrow> FrozenNode list \<Rightarrow> string list \<Rightarrow> string \<Rightarrow> string \<Rightarrow> string \<Rightarrow> FrozenNode" where
  "FrozenNode_init t cs l ti nt tt =
     FrozenNode (or_empty t) cs l (or_empty ti) nt (or_empty tt)"

text \<open>\<^verbatim>\<open>FrozenNode.from_node\<close>: children first, then the node.\<close>

fun from_node :: "NodeTree \<Rightarrow> FrozenNode" where
  "from_node (Tree (Node t cs l ti nt sx tt)) =
     FrozenNode_init t (map from_node cs) l (opt_or_empty ti) nt (opt_or_empty tt)"

text \<open>
  \<^verbatim>\<open>FrozenNode.__repr__\<close>. A text or title taken from a \<^verbatim>\<open>Node\<close> is a
  \<^verbatim>\<open>unicode\<close> object when it is not empty, and the \<^verbatim>\<open>str\<close> literal \<^verbatim>\<open>''\<close> that
  \<^verbatim>\<open>or\<close> puts in its place when it is; label segments are \<^verbatim>\<open>str\<close> objects
  (\<^verbatim>\<open>Node.__init__\<close> applies \<^verbatim>\<open>str\<close> to each). The format string names four fields:
  neither \<^verbatim>\<open>_node_type\<close> nor \<^verbatim>\<open>_tagged_text\<close> is rendered.
\<close>

definition repr_text :: "string \<Rightarrow> string" where
  "repr_text s = (if s = [] then py_repr_str [] else py_repr_unicode s)"

fun frozen_repr :: "FrozenNode \<Rightarrow> string" where
  "frozen_repr (FrozenNode t cs l ti nt tt) =
     ''FrozenNode(text='' @ repr_text t @ '', children='' @ tuple_repr (map frozen_repr cs)
       @ '', label='' @ tuple_repr (map py_repr_str l) @ '', title='' @ repr_text ti @ '')''"

text \<open>
  \<^verbatim>\<open>FrozenNode.__cmp__\<close> between two frozen nodes (the classes are equal), the
  equality \<^verbatim>\<open>==\<close> that Python 2 derives from it, and \<^verbatim>\<open>FrozenNode.__hash__\<close>. The
  built-in \<^verbatim>\<open>hash\<close> of a string is the parameter \<open>h\<close>.
\<close>

definition frozen_cmp :: "FrozenNode \<Rightarrow> FrozenNode \<Rightarrow> int" where
  "frozen_cmp a b = py_cmp (frozen_repr a) (frozen_repr b)"

definition frozen_eq :: "FrozenNode \<Rightarrow> FrozenNode \<Rightarrow> bool" where
  "frozen_eq a b = (frozen_cmp a b = 0)"

definition frozen_hash :: "(string \<Rightarrow> int) \<Rightarrow> FrozenNode \<Rightarrow> int" where
  "frozen_hash h a = h (frozen_repr a)"

text \<open>Two ways in which two node trees can agree, and one for frozen trees.\<close>

fun field_identical :: "NodeTree \<Rightarrow> NodeTree \<Rightarrow> bool" where
  "field_identical (Tree (Node t cs l ti nt sx tt)) (Tree (Node t' cs' l' ti' nt' sx' tt')) =
     (t = t' \<and> l = l' \<and> ti = ti' \<and> nt = nt' \<and> list_all2 field_identical cs cs')"

fun same_text_label_title :: "NodeTree \<Rightarrow> NodeTree \<Rightarrow> bool" where
  "same_text_label_title (Tree (Node t cs l ti nt sx tt)) (Tree (Node t' cs' l' ti' nt' sx' tt')) =
     (t = t' \<and> l = l' \<and> ti = ti' \<and> list_all2 same_text_label_title cs cs')"

fun frozen_same :: "FrozenNode \<Rightarrow> FrozenNode \<Rightarrow> bool" where
  "frozen_same (FrozenNode t cs l ti nt tt) (FrozenNode t' cs' l' ti' nt' tt') =
     (t = t' \<and> l = l' \<and> ti = ti' \<and> list_all2 frozen_same cs cs')"


subsection \<open>The representation string can be read back\<close>

lemma hex_digit_inj: "a < 16 \<Longrightarrow> b < 16 \<Longrightarrow> hex_digit a = hex_digit b \<Longrightarrow> a = b"
proof -
  assume a: "a < 16" and b: "b < 16" and e: "hex_digit a = hex_digit b"
  have d: "distinct ''0123456789abcdef''" by simp
  show ?thesis using a b e nth_eq_iff_index_eq[OF d, of a b] by (simp add: hex_digit_def)
qed

lemma of_char_div_mod_eq:
  assumes "(of_char c :: nat) div 16 = of_char c' div 16"
    and "(of_char c :: nat) mod 16 = of_char c' mod 16"
  shows "c = c'"
proof -
  have "(of_char c :: nat) = of_char c'"
    using assms by (metis div_mult_mod_eq)
  then show ?thesis by simp
qed

lemma of_char_div_16: "(of_char (c::char) :: nat) div 16 < 16"
proof -
  have "(of_char c :: nat) < 256" by (rule nat_of_char_less_256)
  then show ?thesis by arith
qed

lemma hex_pair_inj:
  assumes "hex_digit (of_char c div 16) = hex_digit (of_char c' div 16)"
    and "hex_digit (of_char c mod 16) = hex_digit (of_char c' mod 16)"
  shows "c = c'"
proof -
  have "(of_char c :: nat) div 16 = of_char c' div 16"
    using assms(1) by (rule hex_digit_inj[OF of_char_div_16 of_char_div_16])
  moreover have "(of_char c :: nat) mod 16 = of_char c' mod 16"
    using assms(2) by (intro hex_digit_inj) simp_all
  ultimately show ?thesis by (rule of_char_div_mod_eq)
qed

lemma escape_char_prefix_code:
  assumes q: "q = CHR 0x27 \<or> q = CHR 0x22"
    and e: "escape_char q c @ X = escape_char q c' @ X'"
  shows "c = c' \<and> X = X'"
  using q e
  by (auto simp: escape_char_def split: if_splits dest: hex_pair_inj)

lemma escape_char_not_quote:
  assumes q: "q = CHR 0x27 \<or> q = CHR 0x22"
  shows "escape_char q c @ X \<noteq> q # Y"
  using q by (auto simp: escape_char_def)

lemma py_body_decode:
  assumes q: "q = CHR 0x27 \<or> q = CHR 0x22"
  shows "py_body q s @ r = py_body q s' @ r' \<Longrightarrow> s = s' \<and> r = r'"
proof (induction s arbitrary: s')
  case Nil
  show ?case
  proof (cases s')
    case Nil
    with Nil.prems show ?thesis by (simp add: py_body_def)
  next
    case (Cons c' t)
    with Nil.prems have "escape_char q c' @ (py_body q t @ r') = q # r"
      by (simp add: py_body_def)
    with escape_char_not_quote[OF q] show ?thesis by blast
  qed
next
  case (Cons c s)
  show ?case
  proof (cases s')
    case Nil
    with Cons.prems have "escape_char q c @ (py_body q s @ r) = q # r'"
      by (simp add: py_body_def)
    with escape_char_not_quote[OF q] show ?thesis by blast
  next
    case (Cons c' t)
    with Cons.prems
    have "escape_char q c @ (py_body q s @ r) = escape_char q c' @ (py_body q t @ r')"
      by (simp add: py_body_def)
    from escape_char_prefix_code[OF q this]
    have "c = c'" "py_body q s @ r = py_body q t @ r'" by auto
    with Cons.IH[of t] Cons show ?thesis by simp
  qed
qed

lemma quote_for_cases: "quote_for s = CHR 0x27 \<or> quote_for s = CHR 0x22"
  by (simp add: quote_for_def)

lemma py_repr_str_decode:
  assumes "py_repr_str s @ r = py_repr_str s' @ r'"
  shows "s = s' \<and> r = r'"
proof -
  have u: "py_repr_str t = quote_for t # py_body (quote_for t) t" for t
    by (simp add: py_repr_str_def Let_def)
  from assms have qq: "quote_for s = quote_for s'"
    and b: "py_body (quote_for s) s @ r = py_body (quote_for s') s' @ r'"
    unfolding u by auto
  from b have "py_body (quote_for s) s @ r = py_body (quote_for s) s' @ r'"
    unfolding qq .
  then show ?thesis by (rule py_body_decode[OF quote_for_cases])
qed

lemma py_repr_str_start: "py_repr_str s @ r \<noteq> CHR '')'' # r'"
  using quote_for_cases[of s] by (auto simp: py_repr_str_def Let_def)

lemma repr_text_decode:
  assumes "repr_text s @ r = repr_text s' @ r'"
  shows "s = s' \<and> r = r'"
proof -
  have e: "py_repr_str [] = [CHR 0x27, CHR 0x27]"
    by (simp add: py_repr_str_def py_body_def quote_for_def Let_def)
  show ?thesis
  proof (cases "s = []")
    case True
    note s = this
    show ?thesis
    proof (cases "s' = []")
      case True
      with s assms show ?thesis by (simp add: repr_text_def)
    next
      case False
      with s assms show ?thesis by (simp add: repr_text_def e py_repr_unicode_def)
    qed
  next
    case False
    note s = this
    show ?thesis
    proof (cases "s' = []")
      case True
      with s assms show ?thesis by (simp add: repr_text_def e py_repr_unicode_def)
    next
      case False
      with s assms have "py_repr_str s @ r = py_repr_str s' @ r'"
        by (simp add: repr_text_def py_repr_unicode_def)
      then show ?thesis by (rule py_repr_str_decode)
    qed
  qed
qed

lemma tuple_items_decode:
  assumes item: "\<And>x y r r'. x \<in> set xs \<Longrightarrow> enc x @ r = enc y @ r' \<Longrightarrow> R x y \<and> r = r'"
  shows "tuple_items (map enc xs) @ r = tuple_items (map enc ys) @ r'
    \<Longrightarrow> list_all2 R xs ys \<and> r = r'"
  using item
proof (induction xs arbitrary: ys)
  case Nil
  then show ?case by (cases ys) simp_all
next
  case (Cons x xs)
  show ?case
  proof (cases ys)
    case Nil
    with Cons.prems(1) show ?thesis by simp
  next
    case (Cons y ys')
    with Cons.prems(1)
    have "enc x @ (tuple_items (map enc xs) @ r) = enc y @ (tuple_items (map enc ys') @ r')"
      by simp
    from Cons.prems(2)[OF _ this]
    have xy: "R x y" and t: "tuple_items (map enc xs) @ r = tuple_items (map enc ys') @ r'"
      by simp_all
    have "list_all2 R xs ys' \<and> r = r'"
      by (rule Cons.IH[OF t]) (rule Cons.prems(2), simp_all)
    with xy Cons show ?thesis by simp
  qed
qed

lemma tuple_repr_decode:
  assumes item: "\<And>x y r r'. x \<in> set xs \<Longrightarrow> enc x @ r = enc y @ r' \<Longrightarrow> R x y \<and> r = r'"
    and start: "\<And>x r r'. enc x @ r \<noteq> CHR '')'' # r'"
    and eq: "tuple_repr (map enc xs) @ r = tuple_repr (map enc ys) @ r'"
  shows "list_all2 R xs ys \<and> r = r'"
proof (cases xs)
  case Nil
  note xs = this
  show ?thesis
  proof (cases ys)
    case Nil
    with xs eq show ?thesis by simp
  next
    case (Cons y ys')
    from xs Cons eq have "\<exists>z. enc y @ z = CHR '')'' # r"
      by (cases ys') auto
    with start show ?thesis by blast
  qed
next
  case (Cons x xs')
  note xs = this
  show ?thesis
  proof (cases ys)
    case Nil
    from xs Nil eq have "\<exists>z. enc x @ z = CHR '')'' # r'"
      by (cases xs') auto
    with start show ?thesis by blast
  next
    case (Cons y ys')
    define tx where "tx = (if xs' = [] then '',)'' else tuple_items (map enc xs'))"
    define ty where "ty = (if ys' = [] then '',)'' else tuple_items (map enc ys'))"
    have ex: "tuple_repr (map enc xs) = ''('' @ enc x @ tx"
      using xs by (cases xs') (simp_all add: tx_def)
    have ey: "tuple_repr (map enc ys) = ''('' @ enc y @ ty"
      using Cons by (cases ys') (simp_all add: ty_def)
    from eq have "enc x @ (tx @ r) = enc y @ (ty @ r')"
      unfolding ex ey by simp
    from item[OF _ this] xs have xy: "R x y" and t: "tx @ r = ty @ r'" by simp_all
    show ?thesis
    proof (cases "xs' = []")
      case True
      note x0 = this
      show ?thesis
      proof (cases "ys' = []")
        case True
        with x0 t xy xs Cons show ?thesis by (simp add: tx_def ty_def)
      next
        case False
        then obtain y2 ys2 where "ys' = y2 # ys2" by (cases ys') auto
        with x0 t show ?thesis by (simp add: tx_def ty_def)
      qed
    next
      case False
      note x1 = this
      show ?thesis
      proof (cases "ys' = []")
        case True
        from x1 obtain x2 xs2 where "xs' = x2 # xs2" by (cases xs') auto
        with True t show ?thesis by (simp add: tx_def ty_def)
      next
        case False
        with x1 t have "tuple_items (map enc xs') @ r = tuple_items (map enc ys') @ r'"
          by (simp add: tx_def ty_def)
        then have "list_all2 R xs' ys' \<and> r = r'"
          by (rule tuple_items_decode[rotated]) (rule item, simp_all add: xs)
        with xy xs Cons show ?thesis by simp
      qed
    qed
  qed
qed

lemma frozen_repr_start: "frozen_repr a @ r \<noteq> CHR '')'' # r'"
  by (cases a) simp

lemma frozen_repr_decode:
  "frozen_repr a @ r = frozen_repr b @ r' \<Longrightarrow> frozen_same a b \<and> r = r'"
proof (induction a arbitrary: b r r')
  case (FrozenNode t cs l ti nt tt)
  obtain t' cs' l' ti' nt' tt' where b: "b = FrozenNode t' cs' l' ti' nt' tt'" by (cases b)
  from FrozenNode.prems have
    "repr_text t @ ('', children='' @ tuple_repr (map frozen_repr cs)
       @ '', label='' @ tuple_repr (map py_repr_str l) @ '', title='' @ repr_text ti @ '')'' @ r)
     = repr_text t' @ ('', children='' @ tuple_repr (map frozen_repr cs')
       @ '', label='' @ tuple_repr (map py_repr_str l') @ '', title='' @ repr_text ti' @ '')'' @ r')"
    unfolding b by simp
  from repr_text_decode[OF this] have tt: "t = t'"
    and 1: "tuple_repr (map frozen_repr cs)
         @ ('', label='' @ tuple_repr (map py_repr_str l) @ '', title='' @ repr_text ti @ '')'' @ r)
       = tuple_repr (map frozen_repr cs')
         @ ('', label='' @ tuple_repr (map py_repr_str l') @ '', title='' @ repr_text ti' @ '')'' @ r')"
    by simp_all
  have "list_all2 frozen_same cs cs' \<and>
       '', label='' @ tuple_repr (map py_repr_str l) @ '', title='' @ repr_text ti @ '')'' @ r
       = '', label='' @ tuple_repr (map py_repr_str l') @ '', title='' @ repr_text ti' @ '')'' @ r'"
  proof (rule tuple_repr_decode[where enc = frozen_repr and R = frozen_same,
        OF _ frozen_repr_start 1])
    fix x y r r'
    assume "x \<in> set cs" "frozen_repr x @ r = frozen_repr y @ r'"
    then show "frozen_same x y \<and> r = r'" by (rule FrozenNode.IH)
  qed
  then have cs: "list_all2 frozen_same cs cs'"
    and 2: "tuple_repr (map py_repr_str l) @ ('', title='' @ repr_text ti @ '')'' @ r)
       = tuple_repr (map py_repr_str l') @ ('', title='' @ repr_text ti' @ '')'' @ r')"
    by simp_all
  have "list_all2 (=) l l'
      \<and> '', title='' @ repr_text ti @ '')'' @ r = '', title='' @ repr_text ti' @ '')'' @ r'"
  proof (rule tuple_repr_decode[where enc = py_repr_str and R = "(=)",
        OF _ py_repr_str_start 2])
    fix x y r r'
    assume "x \<in> set l" "py_repr_str x @ r = py_repr_str y @ r'"
    then show "x = y \<and> r = r'" using py_repr_str_decode by blast
  qed
  then have ll: "l = l'"
    and 3: "repr_text ti @ ('')'' @ r) = repr_text ti' @ ('')'' @ r')"
    by (simp_all add: list.rel_eq)
  from repr_text_decode[OF 3] have "ti = ti'" "r = r'" by simp_all
  with tt ll cs show ?case by (simp add: b)
qed

lemma map_eq_if_list_all2:
  "list_all2 (\<lambda>x y. f x = f y) xs ys \<Longrightarrow> map f xs = map f ys"
  by (induction xs ys rule: list_all2_induct) simp_all

lemma frozen_same_repr: "frozen_same a b \<Longrightarrow> frozen_repr a = frozen_repr b"
proof (induction a arbitrary: b)
  case (FrozenNode t cs l ti nt tt)
  obtain t' cs' l' ti' nt' tt' where b: "b = FrozenNode t' cs' l' ti' nt' tt'" by (cases b)
  from FrozenNode.prems have f: "t = t'" "l = l'" "ti = ti'"
    and c: "list_all2 frozen_same cs cs'"
    by (simp_all add: b)
  from c have "list_all2 (\<lambda>x y. frozen_repr x = frozen_repr y) cs cs'"
    by (rule list.rel_mono_strong) (simp add: FrozenNode.IH)
  then have "map frozen_repr cs = map frozen_repr cs'" by (rule map_eq_if_list_all2)
  with f show ?case by (simp add: b)
qed

lemma frozen_repr_eq_iff: "frozen_repr a = frozen_repr b \<longleftrightarrow> frozen_same a b"
proof
  assume "frozen_repr a = frozen_repr b"
  then have "frozen_repr a @ [] = frozen_repr b @ []" by simp
  from frozen_repr_decode[OF this] show "frozen_same a b" by simp
qed (rule frozen_same_repr)

lemma py_cmp_zero_iff: "py_cmp a b = 0 \<longleftrightarrow> a = b"
  by (induction a b rule: py_cmp.induct) auto

lemma frozen_eq_iff: "frozen_eq a b \<longleftrightarrow> frozen_same a b"
  by (simp add: frozen_eq_def frozen_cmp_def py_cmp_zero_iff frozen_repr_eq_iff)

lemma or_empty_id: "or_empty s = s"
  by (simp add: or_empty_def)

lemma field_identical_frozen:
  "field_identical a b \<Longrightarrow> frozen_same (from_node a) (from_node b)"
proof (induction a arbitrary: b rule: from_node.induct)
  case (1 t cs l ti nt sx tt)
  obtain t' cs' l' ti' nt' sx' tt' where b: "b = Tree (Node t' cs' l' ti' nt' sx' tt')"
    by (cases b rule: from_node.cases)
  from "1.prems" have f: "t = t'" "l = l'" "ti = ti'"
    and c: "list_all2 field_identical cs cs'"
    by (simp_all add: b)
  from c have "list_all2 (\<lambda>x y. frozen_same (from_node x) (from_node y)) cs cs'"
    by (rule list.rel_mono_strong) (simp add: "1.IH")
  with f show ?case
    by (simp add: b FrozenNode_init_def list_all2_map1 list_all2_map2)
qed

lemma frozen_same_from_node:
  assumes "init_invariant a" "init_invariant b"
  shows "frozen_same (from_node a) (from_node b) \<longleftrightarrow> same_text_label_title a b"
  using assms
proof (induction a arbitrary: b rule: from_node.induct)
  case (1 t cs l ti nt sx tt)
  obtain t' cs' l' ti' nt' sx' tt' where b: "b = Tree (Node t' cs' l' ti' nt' sx' tt')"
    by (cases b rule: from_node.cases)
  from "1.prems" have ti: "ti \<noteq> Some []" "ti' \<noteq> Some []"
    and ia: "\<And>x. x \<in> set cs \<Longrightarrow> init_invariant x"
    and ib: "\<And>y. y \<in> set cs' \<Longrightarrow> init_invariant y"
    by (simp_all add: b list_all_iff)
  from ti have title: "opt_or_empty ti = opt_or_empty ti' \<longleftrightarrow> ti = ti'"
    by (cases ti; cases ti') (simp_all add: opt_or_empty_def or_empty_def)
  have "list_all2 (\<lambda>x y. frozen_same (from_node x) (from_node y)) cs cs'
      \<longleftrightarrow> list_all2 same_text_label_title cs cs'"
  proof
    assume "list_all2 (\<lambda>x y. frozen_same (from_node x) (from_node y)) cs cs'"
    then show "list_all2 same_text_label_title cs cs'"
      by (rule list.rel_mono_strong) (simp add: "1.IH" ia ib)
  next
    assume "list_all2 same_text_label_title cs cs'"
    then show "list_all2 (\<lambda>x y. frozen_same (from_node x) (from_node y)) cs cs'"
      by (rule list.rel_mono_strong) (simp add: "1.IH" ia ib)
  qed
  with title show ?case
    by (simp add: b FrozenNode_init_def or_empty_id list_all2_map1 list_all2_map2)
qed


subsection \<open>Equality and hash of frozen trees\<close>

text \<open>Three small trees: the second is built like the first but carries another
  \<^verbatim>\<open>source_xml\<close> and a \<^verbatim>\<open>tagged_text\<close>; the third differs from the first in one
  label segment of the child.\<close>

definition example_tree :: NodeTree where
  "example_tree = Tree (Node ''Part'' [Tree (Node ''a'' [] [''1'', ''a''] None REGTEXT None None)]
     [''1''] (Some ''Title'') REGTEXT None None)"

definition example_tree_again :: NodeTree where
  "example_tree_again =
     Tree (Node ''Part'' [Tree (Node ''a'' [] [''1'', ''a''] None REGTEXT None (Some ''<a>''))]
     [''1''] (Some ''Title'') REGTEXT (Some ''xml'') None)"

definition example_tree_changed :: NodeTree where
  "example_tree_changed =
     Tree (Node ''Part'' [Tree (Node ''a'' [] [''1'', ''b''] None REGTEXT None None)]
     [''1''] (Some ''Title'') REGTEXT None None)"

text \<open>
  A string hash without collisions, to have one at hand: the string read as a number in
  base 256.
\<close>

fun str_code :: "string \<Rightarrow> nat" where
  "str_code [] = 0"
| "str_code (c # cs) = Suc (of_char c + 256 * str_code cs)"

definition example_hash :: "string \<Rightarrow> int" where
  "example_hash s = int (str_code s)"

lemma str_code_inj: "str_code xs = str_code ys \<Longrightarrow> xs = ys"
proof (induction xs arbitrary: ys)
  case Nil
  then show ?case by (cases ys) simp_all
next
  case (Cons c cs)
  show ?case
  proof (cases ys)
    case Nil
    with Cons.prems show ?thesis by simp
  next
    case (Cons d ds)
    with Cons.prems have e: "of_char c + 256 * str_code cs = of_char d + 256 * str_code ds"
      by simp
    have c: "(of_char c :: nat) < 256" and d: "(of_char d :: nat) < 256"
      by (rule nat_of_char_less_256)+
    from e have "(of_char c + 256 * str_code cs) mod 256 = (of_char d + 256 * str_code ds) mod 256"
      by simp
    with c d have cd: "(of_char c :: nat) = of_char d" by simp
    with e have "str_code cs = str_code ds" by simp
    with Cons.IH cd Cons show ?thesis by simp
  qed
qed

lemma example_hash_inj: "inj example_hash"
  by (rule injI) (simp add: example_hash_def str_code_inj)

text \<open>
  C1. Two trees of mutable nodes that agree, node by node, on text, label, title,
  node type and the order of their children give frozen trees that are equal (under
  \<^verbatim>\<open>__cmp__\<close>) and have the same hash, whatever the built-in string hash \<open>h\<close> is.
  And when two trees whose nodes are as \<^verbatim>\<open>Node.__init__\<close> leaves them differ anywhere
  in a text, a label segment, a title or a child, their frozen trees are unequal, and their
  hashes differ under every string hash \<open>h\<close> that has no collisions: a difference in one
  of these fields never reaches the built-in hash as the same string, so that two such
  trees can hash equally only where the built-in hash itself collides.
\<close>

theorem frozen_equality_is_structural:
  "(field_identical a b \<longrightarrow>
      frozen_eq (from_node a) (from_node b)
      \<and> frozen_hash h (from_node a) = frozen_hash h (from_node b))
   \<and> (init_invariant a \<and> init_invariant b \<and> \<not> same_text_label_title a b \<longrightarrow>
      \<not> frozen_eq (from_node a) (from_node b)
      \<and> frozen_repr (from_node a) \<noteq> frozen_repr (from_node b)
      \<and> (inj h \<longrightarrow> frozen_hash h (from_node a) \<noteq> frozen_hash h (from_node b)))"
proof (intro conjI impI)
  assume "field_identical a b"
  then have s: "frozen_same (from_node a) (from_node b)" by (rule field_identical_frozen)
  then show "frozen_eq (from_node a) (from_node b)" by (simp add: frozen_eq_iff)
  from s show "frozen_hash h (from_node a) = frozen_hash h (from_node b)"
    by (simp add: frozen_hash_def frozen_same_repr)
next
  assume d: "init_invariant a \<and> init_invariant b \<and> \<not> same_text_label_title a b"
  then have n: "\<not> frozen_same (from_node a) (from_node b)"
    by (simp add: frozen_same_from_node)
  then show "\<not> frozen_eq (from_node a) (from_node b)" by (simp add: frozen_eq_iff)
  from n show r: "frozen_repr (from_node a) \<noteq> frozen_repr (from_node b)"
    by (simp add: frozen_repr_eq_iff)
  assume "inj h"
  with r show "frozen_hash h (from_node a) \<noteq> frozen_hash h (from_node b)"
    by (simp add: frozen_hash_def inj_eq)
qed

theorem frozen_equality_is_structural_witness:
  "field_identical example_tree example_tree_again
   \<and> frozen_eq (from_node example_tree) (from_node example_tree_again)
   \<and> frozen_hash example_hash (from_node example_tree)
       = frozen_hash example_hash (from_node example_tree_again)
   \<and> init_invariant example_tree \<and> init_invariant example_tree_changed
   \<and> \<not> same_text_label_title example_tree example_tree_changed
   \<and> inj example_hash
   \<and> \<not> frozen_eq (from_node example_tree) (from_node example_tree_changed)
   \<and> frozen_hash example_hash (from_node example_tree)
       \<noteq> frozen_hash example_hash (from_node example_tree_changed)"
proof -
  have f: "field_identical example_tree example_tree_again"
    by (simp add: example_tree_def example_tree_again_def)
  have i: "init_invariant example_tree \<and> init_invariant example_tree_changed
      \<and> \<not> same_text_label_title example_tree example_tree_changed"
    by (simp add: example_tree_def example_tree_changed_def)
  from f i example_hash_inj
    frozen_equality_is_structural[of example_tree example_tree_again example_hash]
    frozen_equality_is_structural[of example_tree example_tree_changed example_hash]
  show ?thesis by blast
qed

text \<open>
  C5, as the code has it. The node type is not part of the representation string of a
  frozen node: two frozen nodes with the same text, children, label and title are equal
  and have the same hash, whatever their node types and tagged texts.
\<close>

theorem node_type_not_in_frozen_repr:
  "f_text a = f_text b \<and> f_children a = f_children b \<and> f_label a = f_label b
     \<and> f_title a = f_title b
   \<longrightarrow> frozen_eq a b \<and> frozen_hash h a = frozen_hash h b"
proof
  assume e: "f_text a = f_text b \<and> f_children a = f_children b \<and> f_label a = f_label b
     \<and> f_title a = f_title b"
  then have "frozen_repr a = frozen_repr b" by (cases a; cases b) simp
  then show "frozen_eq a b \<and> frozen_hash h a = frozen_hash h b"
    by (simp add: frozen_eq_def frozen_cmp_def py_cmp_zero_iff frozen_hash_def)
qed

theorem node_type_not_in_frozen_repr_witness:
  "f_node_type (FrozenNode ''a'' [] [''1''] ''T'' SUBPART ''<a>'')
     \<noteq> f_node_type (FrozenNode ''a'' [] [''1''] ''T'' EMPTYPART [])
   \<and> frozen_eq (FrozenNode ''a'' [] [''1''] ''T'' SUBPART ''<a>'')
       (FrozenNode ''a'' [] [''1''] ''T'' EMPTYPART [])"
  using node_type_not_in_frozen_repr[of "FrozenNode ''a'' [] [''1''] ''T'' SUBPART ''<a>''"
      "FrozenNode ''a'' [] [''1''] ''T'' EMPTYPART []" "\<lambda>s. 0"]
  by (simp add: SUBPART_def EMPTYPART_def)

text \<open>
  C5, as the claim states it, fails: these two frozen nodes agree on text, children,
  label, title and tagged text and differ in node type, and they are equal.
\<close>

theorem node_type_differs_yet_equal:
  "f_node_type (FrozenNode ''a'' [] [''1''] ''T'' REGTEXT []) \<noteq>
     f_node_type (FrozenNode ''a'' [] [''1''] ''T'' APPENDIX [])
   \<and> frozen_eq (FrozenNode ''a'' [] [''1''] ''T'' REGTEXT [])
       (FrozenNode ''a'' [] [''1''] ''T'' APPENDIX [])"
  by (simp add: frozen_eq_iff REGTEXT_def APPENDIX_def)


section \<open>Constructing a node\<close>

text \<open>
  \<^verbatim>\<open>Node.__init__\<close>. The label may hold any objects: the constructor drops those equal
  to the empty string and applies \<^verbatim>\<open>str\<close> to the others. The objects modelled here
  are \<^verbatim>\<open>None\<close>, booleans, integers and strings, with \<^verbatim>\<open>str\<close> as Python defines it
  on them. The text is a string (on which \<^verbatim>\<open>unicode\<close> changes nothing), the title a
  string or \<^verbatim>\<open>None\<close>. The class has no exception of its own, and on a label that is
  a list of such objects the constructor raises none: \<open>Node_init\<close> is the constructor
  on these arguments. \<open>Node_init_any\<close> below is the constructor on a label argument
  of any kind, with the exceptions of the built-in operations it applies.
\<close>

datatype pyval = PNone | PBool bool | PInt int | PStr string

fun digits :: "nat \<Rightarrow> string" where
  "digits n = (if n < 10 then [hex_digit n] else digits (n div 10) @ [hex_digit (n mod 10)])"

declare digits.simps [simp del]

fun py_str :: "pyval \<Rightarrow> string" where
  "py_str PNone = ''None''"
| "py_str (PBool b) = (if b then ''True'' else ''False'')"
| "py_str (PInt i) = (if i < 0 then CHR ''-'' # digits (nat (- i)) else digits (nat i))"
| "py_str (PStr s) = s"

definition Node_init ::
  "string \<Rightarrow> 'c list \<Rightarrow> pyval list \<Rightarrow> string option \<Rightarrow> string \<Rightarrow> string option \<Rightarrow> 'c Node" where
  "Node_init text' children' label' title' node_type' source_xml' =
     (let title'' = opt_or_empty title'
      in Node text' children' (map py_str (filter (\<lambda>l. l \<noteq> PStr []) label'))
           (if title'' = [] then None else Some title'') node_type' source_xml' None)"

lemma digits_not_empty: "digits n \<noteq> []"
  by (subst digits.simps) simp

lemma py_str_not_empty: "v \<noteq> PStr [] \<Longrightarrow> py_str v \<noteq> []"
  by (cases v) (simp_all add: digits_not_empty)

lemma Node_init_fields:
  "node_text (Node_init t cs l ti nt sx) = t"
  "children (Node_init t cs l ti nt sx) = cs"
  "label (Node_init t cs l ti nt sx) = map py_str (filter (\<lambda>x. x \<noteq> PStr []) l)"
  "title (Node_init t cs l ti nt sx) = (if opt_or_empty ti = [] then None else Some (opt_or_empty ti))"
  "node_type (Node_init t cs l ti nt sx) = nt"
  "source_xml (Node_init t cs l ti nt sx) = sx"
  by (simp_all add: Node_init_def Let_def)

lemma Node_init_invariant:
  "list_all init_invariant cs \<Longrightarrow> init_invariant (Tree (Node_init t cs l ti nt sx))"
  by (auto simp: Node_init_def Let_def dest: py_str_not_empty)


text \<open>
  The label argument as Python sees it. A segment is one of the objects above (a
  \<^verbatim>\<open>PStr\<close> is a \<^verbatim>\<open>str\<close>) or a \<^verbatim>\<open>unicode\<close> object. The label is a list (or
  tuple) of segments, or a single object: the comprehension iterates over it, which gives
  the characters of a \<^verbatim>\<open>str\<close> or \<^verbatim>\<open>unicode\<close> object, one-character strings of the
  same type, and raises \<^verbatim>\<open>TypeError\<close> on \<^verbatim>\<open>None\<close>, a boolean or an integer.
\<close>

datatype segment = SAtom pyval | SUnicode string

datatype label_arg = LSeq "segment list" | LAtom segment

fun label_iter :: "label_arg \<Rightarrow> error + segment list" where
  "label_iter (LSeq ls) = Inr ls"
| "label_iter (LAtom (SAtom (PStr s))) = Inr (map (\<lambda>c. SAtom (PStr [c])) s)"
| "label_iter (LAtom (SUnicode s)) = Inr (map (\<lambda>c. SUnicode [c]) s)"
| "label_iter (LAtom (SAtom v)) = Inl TypeError"

text \<open>
  The test \<^verbatim>\<open>l != ''\<close> (an empty \<^verbatim>\<open>unicode\<close> object equals \<^verbatim>\<open>''\<close>), and
  \<^verbatim>\<open>str(l)\<close>, which encodes a \<^verbatim>\<open>unicode\<close> object as ASCII and raises
  \<^verbatim>\<open>UnicodeEncodeError\<close> when it holds a character outside ASCII.
\<close>

fun seg_nonempty :: "segment \<Rightarrow> bool" where
  "seg_nonempty (SAtom v) = (v \<noteq> PStr [])"
| "seg_nonempty (SUnicode s) = (s \<noteq> [])"

definition is_ascii :: "string \<Rightarrow> bool" where
  "is_ascii s = list_all (\<lambda>c. (of_char c :: nat) < 128) s"

fun seg_str :: "segment \<Rightarrow> error + string" where
  "seg_str (SAtom v) = Inr (py_str v)"
| "seg_str (SUnicode s) = (if is_ascii s then Inr s else Inl UnicodeEncodeError)"

text \<open>
  The comprehension \<^verbatim>\<open>[str(l) for l in label if l != '']\<close>, from left to right: the
  first segment on which \<^verbatim>\<open>str\<close> raises ends it.
\<close>

fun str_all :: "segment list \<Rightarrow> error + string list" where
  "str_all [] = Inr []"
| "str_all (l # ls) =
     (if seg_nonempty l
      then (case seg_str l of
              Inl e \<Rightarrow> Inl e
            | Inr s \<Rightarrow> (case str_all ls of Inl e \<Rightarrow> Inl e | Inr ss \<Rightarrow> Inr (s # ss)))
      else str_all ls)"

definition Node_init_any ::
  "string \<Rightarrow> 'c list \<Rightarrow> label_arg \<Rightarrow> string option \<Rightarrow> string \<Rightarrow> string option
    \<Rightarrow> error + 'c Node" where
  "Node_init_any text' children' label' title' node_type' source_xml' =
     (case label_iter label' of
        Inl e \<Rightarrow> Inl e
      | Inr segments \<Rightarrow>
          (case str_all segments of
             Inl e \<Rightarrow> Inl e
           | Inr l \<Rightarrow>
               (let title'' = opt_or_empty title'
                in Inr (Node text' children' l
                     (if title'' = [] then None else Some title'') node_type' source_xml' None))))"

lemma str_all_atoms:
  "str_all (map SAtom l) = Inr (map py_str (filter (\<lambda>x. x \<noteq> PStr []) l))"
  by (induction l) simp_all

lemma Node_init_any_atoms:
  "Node_init_any t cs (LSeq (map SAtom l)) ti nt sx = Inr (Node_init t cs l ti nt sx)"
  by (simp add: Node_init_any_def Node_init_def str_all_atoms Let_def)

lemma str_all_Inl:
  "str_all ls = Inl e \<longleftrightarrow> e = UnicodeEncodeError \<and> (\<exists>s. SUnicode s \<in> set ls \<and> \<not> is_ascii s)"
proof (induction ls)
  case Nil
  show ?case by simp
next
  case (Cons l ls)
  have n: "\<not> is_ascii s \<Longrightarrow> s \<noteq> []" for s by (auto simp: is_ascii_def)
  show ?case
  proof (cases l)
    case (SAtom v)
    with Cons show ?thesis by (auto split: sum.splits)
  next
    case (SUnicode s)
    with Cons n[of s] show ?thesis by (auto split: sum.splits simp: is_ascii_def)
  qed
qed

lemma seg_str_not_empty: "seg_nonempty l \<Longrightarrow> seg_str l = Inr s \<Longrightarrow> s \<noteq> []"
  by (cases l) (auto dest: py_str_not_empty split: if_splits)

lemma str_all_Inr: "str_all ls = Inr ss \<Longrightarrow> [] \<notin> set ss"
proof (induction ls arbitrary: ss)
  case Nil
  then show ?case by simp
next
  case (Cons l ls)
  then show ?case
    by (auto split: if_splits sum.splits dest: seg_str_not_empty)
qed

lemma label_iter_Inl:
  "label_iter lab = Inl e \<longleftrightarrow> e = TypeError \<and> (\<exists>v. lab = LAtom (SAtom v) \<and> (\<forall>s. v \<noteq> PStr s))"
  by (cases lab rule: label_iter.cases) auto


text \<open>
  C7, as the code has it. The constructor has no check of the label and no
  \<^verbatim>\<open>InvalidLabel\<close> condition. A label that is a list of \<^verbatim>\<open>None\<close>, booleans, integers
  and strings, in any mix, is accepted: the node is built, its label the segments that are
  not the empty string, in order, each converted by \<^verbatim>\<open>str\<close>. On a label argument
  that is one of these objects, a \<^verbatim>\<open>unicode\<close> object, or a list of such, the
  constructor raises in two cases only, both exceptions of a built-in operation:
  \<^verbatim>\<open>TypeError\<close> exactly when the label is \<^verbatim>\<open>None\<close>, a boolean or an integer, which
  cannot be iterated over, and \<^verbatim>\<open>UnicodeEncodeError\<close> exactly when one of its segments
  is a \<^verbatim>\<open>unicode\<close> object with a character outside ASCII. And a node that is built has
  no empty label segment.
\<close>

theorem Node_init_label_outcomes:
  "Node_init_any t cs (LSeq (map SAtom l)) ti nt sx = Inr (Node_init t cs l ti nt sx)
   \<and> (\<exists>n. Node_init_any t cs (LSeq (map SAtom l)) ti nt sx = Inr n
          \<and> label n = map py_str (filter (\<lambda>x. x \<noteq> PStr []) l))
   \<and> (Node_init_any t cs lab ti nt sx = Inl e \<longleftrightarrow>
        e = TypeError \<and> (\<exists>v. lab = LAtom (SAtom v) \<and> (\<forall>s. v \<noteq> PStr s))
        \<or> e = UnicodeEncodeError
           \<and> (\<exists>ls s. label_iter lab = Inr ls \<and> SUnicode s \<in> set ls \<and> \<not> is_ascii s))
   \<and> (Node_init_any t cs lab ti nt sx = Inr n \<longrightarrow> [] \<notin> set (label n))"
proof (intro conjI)
  show a: "Node_init_any t cs (LSeq (map SAtom l)) ti nt sx = Inr (Node_init t cs l ti nt sx)"
    by (rule Node_init_any_atoms)
  have "label (Node_init t cs l ti nt sx) = map py_str (filter (\<lambda>x. x \<noteq> PStr []) l)"
    by (simp add: Node_init_def Let_def)
  with a show "\<exists>n. Node_init_any t cs (LSeq (map SAtom l)) ti nt sx = Inr n
          \<and> label n = map py_str (filter (\<lambda>x. x \<noteq> PStr []) l)"
    by blast
  show "Node_init_any t cs lab ti nt sx = Inl e \<longleftrightarrow>
        e = TypeError \<and> (\<exists>v. lab = LAtom (SAtom v) \<and> (\<forall>s. v \<noteq> PStr s))
        \<or> e = UnicodeEncodeError
           \<and> (\<exists>ls s. label_iter lab = Inr ls \<and> SUnicode s \<in> set ls \<and> \<not> is_ascii s)"
  proof (cases "label_iter lab")
    case (Inl e')
    then have "Node_init_any t cs lab ti nt sx = Inl e'" by (simp add: Node_init_any_def)
    with Inl label_iter_Inl[of lab e'] show ?thesis by auto
  next
    case (Inr ls)
    then have "Node_init_any t cs lab ti nt sx = Inl e \<longleftrightarrow> str_all ls = Inl e"
      by (simp add: Node_init_any_def Let_def split: sum.splits)
    moreover from Inr label_iter_Inl[of lab TypeError]
    have "\<not> (\<exists>v. lab = LAtom (SAtom v) \<and> (\<forall>s. v \<noteq> PStr s))" by simp
    ultimately show ?thesis using Inr by (auto simp: str_all_Inl)
  qed
  show "Node_init_any t cs lab ti nt sx = Inr n \<longrightarrow> [] \<notin> set (label n)"
    by (auto simp: Node_init_any_def Let_def split: sum.splits dest: str_all_Inr)
qed

theorem Node_init_label_outcomes_witness:
  "Node_init_any ''x'' ([] :: nat list)
       (LSeq (map SAtom [PStr ''1005'', PStr [], PInt 2, PNone])) None REGTEXT None
     = Inr (Node ''x'' [] [''1005'', ''2'', ''None''] None REGTEXT None None)
   \<and> Node_init_any ''x'' ([] :: nat list) (LAtom (SAtom (PInt 5))) None REGTEXT None
     = Inl TypeError
   \<and> Node_init_any ''x'' ([] :: nat list) (LSeq [SAtom (PStr ''1''), SUnicode [CHR 0xE9]])
       None REGTEXT None
     = Inl UnicodeEncodeError
   \<and> Node_init_any ''x'' ([] :: nat list) (LAtom (SUnicode ''1a'')) None REGTEXT None
     = Inr (Node ''x'' [] [''1'', ''a''] None REGTEXT None None)
   \<and> [] \<notin> set (label (Node ''x'' ([] :: nat list) [''1'', ''a''] None REGTEXT None None))"
proof -
  have a: "Node_init ''x'' ([] :: nat list) [PStr ''1005'', PStr [], PInt 2, PNone] None REGTEXT None
      = Node ''x'' [] [''1005'', ''2'', ''None''] None REGTEXT None None"
    by (simp add: Node_init_def opt_or_empty_def digits.simps hex_digit_def)
  have b: "\<not> is_ascii [CHR 0xE9]" by (simp add: is_ascii_def)
  have c: "Node_init_any ''x'' ([] :: nat list) (LAtom (SUnicode ''1a'')) None REGTEXT None
     = Inr (Node ''x'' [] [''1'', ''a''] None REGTEXT None None)"
    by (simp add: Node_init_any_def is_ascii_def opt_or_empty_def)
  from a b c
    Node_init_label_outcomes[of "''x''" "[] :: nat list" "[PStr ''1005'', PStr [], PInt 2, PNone]"
      None REGTEXT None "LAtom (SAtom (PInt 5))" TypeError]
    Node_init_label_outcomes[of "''x''" "[] :: nat list" "[]"
      None REGTEXT None "LSeq [SAtom (PStr ''1''), SUnicode [CHR 0xE9]]" UnicodeEncodeError]
    Node_init_label_outcomes[of "''x''" "[] :: nat list" "[]"
      None REGTEXT None "LAtom (SUnicode ''1a'')" TypeError
      "Node ''x'' [] [''1'', ''a''] None REGTEXT None None"]
  show ?thesis by simp
qed


text \<open>
  C7, as the claim states it, fails: a label with an integer segment beside a string
  segment raises nothing and gives a node, whose label holds the integer's decimal digits.
\<close>

theorem Node_init_no_InvalidLabel:
  "Node_init_any [] ([] :: nat list) (LSeq [SAtom (PInt 111), SAtom (PStr ''a'')]) None REGTEXT None
     = Inr (Node [] [] [''111'', ''a''] None REGTEXT None None)
   \<and> Node_init [] ([] :: nat list) [PInt 111, PStr ''a''] None REGTEXT None
     = Node [] [] [''111'', ''a''] None REGTEXT None None"
  by (simp add: Node_init_any_def Node_init_def opt_or_empty_def digits.simps hex_digit_def)


section \<open>Serialization\<close>

text \<open>
  JSON values; an object is the list of its members. \<open>encode_node\<close> is the value that
  \<^verbatim>\<open>NodeEncoder\<close> emits for a node: \<^verbatim>\<open>default\<close> copies the node's attributes,
  deletes \<^verbatim>\<open>title\<close> when it is \<^verbatim>\<open>None\<close>, deletes \<^verbatim>\<open>tagged_text\<close>,
  \<^verbatim>\<open>source_xml\<close> and \<^verbatim>\<open>child_labels\<close>, and the encoder then encodes the values,
  the children through \<^verbatim>\<open>default\<close> again. The characters of a string are not
  re-encoded by the model.
\<close>

datatype json = JNull | JBool bool | JNumber int | JString string | JArray "json list"
  | JObject "(string \<times> json) list"

definition dict_del :: "string \<Rightarrow> (string \<times> 'v) list \<Rightarrow> (string \<times> 'v) list" where
  "dict_del k d = filter (\<lambda>(k', v). k' \<noteq> k) d"

definition json_opt :: "string option \<Rightarrow> json" where
  "json_opt s = (case s of None \<Rightarrow> JNull | Some x \<Rightarrow> JString x)"

fun encode_node :: "NodeTree \<Rightarrow> json" where
  "encode_node (Tree (Node t cs l ti nt sx tt)) =
     (let fields = [(''text'', JString t), (''children'', JArray (map encode_node cs)),
                    (''label'', JArray (map JString l)), (''title'', json_opt ti),
                    (''node_type'', JString nt), (''source_xml'', json_opt sx)]
                   @ (case tt of None \<Rightarrow> [] | Some x \<Rightarrow> [(''tagged_text'', JString x)]);
          fields = (if ti = None then dict_del ''title'' fields else fields);
          fields = fold dict_del [''tagged_text'', ''source_xml'', ''child_labels''] fields
      in JObject fields)"

text \<open>
  What \<^verbatim>\<open>json.loads\<close> builds with \<^verbatim>\<open>node_decode_hook\<close> as its object hook: the
  hook is applied to every object, innermost first. Where all four keys are present the
  hook calls the constructor; the model covers the arguments that are a string, a list of
  nodes, a list of atoms, and a string or \<^verbatim>\<open>None\<close> (or no title), and gives \<open>None\<close>
  for any other, which Python would convert with \<^verbatim>\<open>unicode\<close>, \<^verbatim>\<open>list\<close> and
  \<^verbatim>\<open>str\<close>.
\<close>

datatype decoded = DAtom pyval | DList "decoded list" | DDict "(string \<times> decoded) list"
  | DNode NodeTree

fun those_list :: "'a option list \<Rightarrow> 'a list option" where
  "those_list [] = Some []"
| "those_list (x # xs) = (case x of None \<Rightarrow> None | Some y \<Rightarrow> map_option ((#) y) (those_list xs))"

fun as_string :: "decoded \<Rightarrow> string option" where
  "as_string (DAtom (PStr s)) = Some s"
| "as_string _ = None"

fun as_title :: "decoded option \<Rightarrow> string option option" where
  "as_title None = Some None"
| "as_title (Some (DAtom PNone)) = Some None"
| "as_title (Some (DAtom (PStr s))) = Some (Some s)"
| "as_title _ = None"

fun as_node :: "decoded \<Rightarrow> NodeTree option" where
  "as_node (DNode n) = Some n"
| "as_node _ = None"

fun as_atom :: "decoded \<Rightarrow> pyval option" where
  "as_atom (DAtom v) = Some v"
| "as_atom _ = None"

fun as_list :: "(decoded \<Rightarrow> 'a option) \<Rightarrow> decoded \<Rightarrow> 'a list option" where
  "as_list f (DList xs) = those_list (map f xs)"
| "as_list f _ = None"

definition node_decode_hook :: "(string \<times> decoded) list \<Rightarrow> decoded option" where
  "node_decode_hook d =
     (if set [''text'', ''children'', ''label'', ''node_type''] - set (map fst d) = {}
      then (case (as_string (the (map_of d ''text'')),
                  as_list as_node (the (map_of d ''children'')),
                  as_list as_atom (the (map_of d ''label'')),
                  as_title (map_of d ''title''),
                  as_string (the (map_of d ''node_type''))) of
              (Some t, Some cs, Some l, Some ti, Some nt) \<Rightarrow>
                 Some (DNode (Tree (Node_init t cs l ti nt None)))
            | _ \<Rightarrow> None)
      else Some (DDict d))"

fun decode :: "json \<Rightarrow> decoded option" where
  "decode JNull = Some (DAtom PNone)"
| "decode (JBool b) = Some (DAtom (PBool b))"
| "decode (JNumber i) = Some (DAtom (PInt i))"
| "decode (JString s) = Some (DAtom (PStr s))"
| "decode (JArray xs) = map_option DList (those_list (map decode xs))"
| "decode (JObject kvs) =
     (case those_list (map (\<lambda>(k, v). map_option (Pair k) (decode v)) kvs) of
        None \<Rightarrow> None
      | Some d \<Rightarrow> node_decode_hook d)"


text \<open>The node with \<^verbatim>\<open>source_xml\<close> and \<^verbatim>\<open>tagged_text\<close> removed, in the whole tree.\<close>

fun forget_markup :: "NodeTree \<Rightarrow> NodeTree" where
  "forget_markup (Tree (Node t cs l ti nt sx tt)) =
     Tree (Node t (map forget_markup cs) l ti nt None None)"

definition json_keys :: "json \<Rightarrow> string list" where
  "json_keys j = (case j of JObject kvs \<Rightarrow> map fst kvs | _ \<Rightarrow> [])"

lemma those_list_map:
  "(\<And>x. x \<in> set xs \<Longrightarrow> f x = Some (g x)) \<Longrightarrow> those_list (map f xs) = Some (map g xs)"
  by (induction xs) simp_all

lemma label_roundtrip:
  "[] \<notin> set l \<Longrightarrow> map py_str (filter (\<lambda>x. x \<noteq> PStr []) (map PStr l)) = l"
  by (induction l) auto

lemma decode_encode_node:
  "init_invariant n \<Longrightarrow> decode (encode_node n) = Some (DNode (forget_markup n))"
proof (induction n rule: encode_node.induct)
  case (1 t cs l ti nt sx tt)
  from "1.prems" have l: "[] \<notin> set l" and ti: "ti \<noteq> Some []"
    and cs: "\<And>c. c \<in> set cs \<Longrightarrow> init_invariant c"
    by (simp_all add: list_all_iff)
  have c: "decode (JArray (map encode_node cs)) = Some (DList (map (\<lambda>c. DNode (forget_markup c)) cs))"
    using "1.IH" cs by (simp add: those_list_map comp_def)
  have lab: "decode (JArray (map JString l)) = Some (DList (map (\<lambda>s. DAtom (PStr s)) l))"
    by (simp add: those_list_map comp_def)
  have an: "as_list as_node (DList (map (\<lambda>c. DNode (forget_markup c)) cs)) = Some (map forget_markup cs)"
    by (simp add: those_list_map comp_def)
  have aa: "as_list as_atom (DList (map (\<lambda>s. DAtom (PStr s)) l)) = Some (map PStr l)"
    by (simp add: those_list_map comp_def)
  show ?case
  proof (cases ti)
    case None
    then show ?thesis
      using c lab an aa l
      by (simp add: dict_del_def json_opt_def node_decode_hook_def Node_init_def
          opt_or_empty_def label_roundtrip del: decode.simps(5) as_list.simps split: option.split)
  next
    case (Some s)
    with ti have "s \<noteq> []" by simp
    with Some show ?thesis
      using c lab an aa l
      by (simp add: dict_del_def json_opt_def node_decode_hook_def Node_init_def
          opt_or_empty_def or_empty_def label_roundtrip del: decode.simps(5) as_list.simps split: option.split)
  qed
qed

lemma field_identical_forget_markup: "field_identical n (forget_markup n)"
  by (induction n rule: forget_markup.induct) (simp add: list_all2_map2 list.rel_refl_strong)

lemma encode_node_no_title:
  "''title'' \<notin> set (json_keys (encode_node (Tree (Node t cs l None nt sx tt))))"
  by (simp add: json_keys_def dict_del_def json_opt_def split: option.split)

lemma node_decode_hook_passes:
  "\<not> set [''text'', ''children'', ''label'', ''node_type''] \<subseteq> set (map fst d)
    \<Longrightarrow> node_decode_hook d = Some (DDict d)"
  by (auto simp: node_decode_hook_def)


text \<open>
  C8. For a node as the constructor leaves it, decoding the encoded node gives a node that
  agrees with it on text, children, label, node type and title (it is the node without its
  \<^verbatim>\<open>source_xml\<close> and \<^verbatim>\<open>tagged_text\<close>); the encoded object of a node without a
  title has no \<^verbatim>\<open>title\<close> member; and the hook returns an object that lacks one of the
  four keys as it is.
\<close>

theorem encode_decode_roundtrip:
  "(init_invariant n \<longrightarrow>
      decode (encode_node n) = Some (DNode (forget_markup n))
      \<and> field_identical n (forget_markup n))
   \<and> ''title'' \<notin> set (json_keys (encode_node (Tree (Node t cs l None nt sx tt))))
   \<and> (\<not> set [''text'', ''children'', ''label'', ''node_type''] \<subseteq> set (map fst d)
      \<longrightarrow> node_decode_hook d = Some (DDict d))"
  using decode_encode_node[of n] field_identical_forget_markup[of n]
    encode_node_no_title[of t cs l nt sx tt] node_decode_hook_passes[of d]
  by blast

theorem encode_decode_roundtrip_witness:
  "init_invariant example_tree_again
   \<and> decode (encode_node example_tree_again) = Some (DNode example_tree)
   \<and> ''title'' \<notin> set (json_keys (encode_node (Tree (Node ''a'' [] [''1''] None REGTEXT None None))))
   \<and> \<not> set [''text'', ''children'', ''label'', ''node_type'']
        \<subseteq> set (map fst [(''text'', DAtom (PStr ''a'')), (''label'', DList [])])
   \<and> node_decode_hook [(''text'', DAtom (PStr ''a'')), (''label'', DList [])]
       = Some (DDict [(''text'', DAtom (PStr ''a'')), (''label'', DList [])])"
proof -
  have i: "init_invariant example_tree_again"
    by (simp add: example_tree_again_def)
  have f: "forget_markup example_tree_again = example_tree"
    by (simp add: example_tree_again_def example_tree_def)
  have k: "\<not> set [''text'', ''children'', ''label'', ''node_type'']
        \<subseteq> set (map fst [(''text'', DAtom (PStr ''a'')), (''label'', DList [])])"
    by simp
  from i f k
    encode_decode_roundtrip[of example_tree_again "''a''" "[]" "[''1'']" REGTEXT None None
      "[(''text'', DAtom (PStr ''a'')), (''label'', DList [])]"]
  show ?thesis by simp
qed


section \<open>The store of nodes\<close>

text \<open>
  \<^verbatim>\<open>merge_duplicates\<close> and \<^verbatim>\<open>treeify\<close> change node objects that the caller's list
  and the lists they build refer to. The store gives the node object at an address; a list
  of nodes is a list of addresses, and so is the \<^verbatim>\<open>children\<close> attribute of a node in the
  store. Two occurrences of one address are the same object. The list held by each
  \<^verbatim>\<open>children\<close> attribute is the node's own: the constructor copies its argument, and
  \<^verbatim>\<open>treeify\<close> assigns a new list.
\<close>

type_synonym addr = nat
type_synonym store = "addr \<Rightarrow> addr Node"

text \<open>The node with another list of children, every other attribute as it was.\<close>

definition set_children :: "'c Node \<Rightarrow> 'd list \<Rightarrow> 'd Node" where
  "set_children n cs = Node (node_text n) cs (label n) (title n) (node_type n) (source_xml n) (tagged_text n)"


text \<open>Two nodes that agree on every attribute but the children.\<close>

definition same_fields :: "'c Node \<Rightarrow> 'd Node \<Rightarrow> bool" where
  "same_fields n m =
     (node_text n = node_text m \<and> label n = label m \<and> title n = title m
      \<and> node_type n = node_type m \<and> source_xml n = source_xml m
      \<and> tagged_text n = tagged_text m)"

lemma set_children_fields [simp]:
  "node_text (set_children n cs) = node_text n"
  "children (set_children n cs) = cs"
  "label (set_children n cs) = label n"
  "title (set_children n cs) = title n"
  "node_type (set_children n cs) = node_type n"
  "source_xml (set_children n cs) = source_xml n"
  "tagged_text (set_children n cs) = tagged_text n"
  by (simp_all add: set_children_def)

lemma set_children_twice [simp]: "set_children (set_children n cs) ds = set_children n ds"
  by (simp add: set_children_def)

lemma set_children_same [simp]: "set_children n (children n) = n"
  by (cases n) (simp add: set_children_def)


lemma same_fields_refl [simp]: "same_fields a a"
  by (simp add: same_fields_def)


section \<open>Merging the nodes that have the same label\<close>




text \<open>
  The branch taken when a pair was found: \<^verbatim>\<open>lhs.children.extend(rhs.children)\<close>
  changes the object at \<^verbatim>\<open>nodes[lidx]\<close>, and the list passed on is
  \<^verbatim>\<open>nodes[:ridx] + nodes[ridx + 1:]\<close>.
\<close>

definition merge_pair :: "store \<Rightarrow> addr list \<Rightarrow> nat \<Rightarrow> nat \<Rightarrow> store \<times> addr list" where
  "merge_pair \<sigma> nodes lidx ridx =
     (let lhs = nodes ! lidx; rhs = nodes ! ridx
      in (\<sigma>(lhs := set_children (\<sigma> lhs) (children (\<sigma> lhs) @ children (\<sigma> rhs))),
          take ridx nodes @ drop (ridx + 1) nodes))"





subsection \<open>The scan\<close>
















subsection \<open>The recursion\<close>




lemma merge_pair_store:
  "fst (merge_pair \<sigma> nodes i j) =
     \<sigma>(nodes ! i := set_children (\<sigma> (nodes ! i))
          (children (\<sigma> (nodes ! i)) @ children (\<sigma> (nodes ! j))))"
  "snd (merge_pair \<sigma> nodes i j) = take j nodes @ drop (Suc j) nodes"
  by (simp_all add: merge_pair_def Let_def)

lemma merge_pair_label [simp]: "label (fst (merge_pair \<sigma> nodes i j) a) = label (\<sigma> a)"
  by (simp add: merge_pair_store)


















subsection \<open>No two equal labels are left\<close>




subsection \<open>Which pair is merged\<close>






subsection \<open>What a merge step changes\<close>






section \<open>Building the tree\<close>































subsection \<open>Which nodes go under a root\<close>




subsection \<open>No error on nodes that have a label\<close>




section \<open>Flattening a tree and building it again\<close>

text \<open>
  The flat list of a tree, in pre-order: one node object for each node of the tree, with
  the attributes of the node and no children yet. (A list of the node objects of the tree
  itself, which still hold their children, would have \<^verbatim>\<open>treeify\<close> append the rebuilt
  children to the old ones.)
\<close>

fun flatten :: "NodeTree \<Rightarrow> addr Node list" where
  "flatten (Tree (Node t cs l ti nt sx tt)) = Node t [] l ti nt sx tt # concat (map flatten cs)"

definition flatten_all :: "NodeTree list \<Rightarrow> addr Node list" where
  "flatten_all ts = concat (map flatten ts)"

fun node_of :: "NodeTree \<Rightarrow> NodeTree Node" where
  "node_of (Tree n) = n"

definition label_of :: "NodeTree \<Rightarrow> string list" where
  "label_of t = label (node_of t)"


text \<open>
  The store holds the objects \<open>objs\<close> at the addresses from \<open>b\<close> on. And the store
  holds the tree \<open>t\<close> at the address \<open>a\<close>: the object at \<open>a\<close> has the attributes of
  the root of \<open>t\<close>, and its children are addresses at which the store holds the children
  of \<open>t\<close>, in order.
\<close>

definition stored :: "store \<Rightarrow> addr \<Rightarrow> addr Node list \<Rightarrow> bool" where
  "stored \<sigma> b objs = (map \<sigma> [b ..< b + length objs] = objs)"






text \<open>Both conditions at once, on a list of siblings and on a tree.\<close>

definition siblings_ok :: "NodeTree list \<Rightarrow> bool" where
  "siblings_ok ts = (distinct (map label_of ts)
     \<and> (1 < length ts \<longrightarrow> list_all (\<lambda>t. last (label_of t) \<noteq> INTERP_MARK) ts))"

fun consistent :: "NodeTree \<Rightarrow> bool" where
  "consistent (Tree (Node t cs l ti nt sx tt)) =
     (l \<noteq> [] \<and> list_all (\<lambda>c. label_of c \<noteq> [] \<and> butlast (label_of c) = l) cs
      \<and> siblings_ok cs \<and> list_all consistent cs)"

definition forest_ok :: "nat \<Rightarrow> NodeTree list \<Rightarrow> bool" where
  "forest_ok k ts = (0 < k \<and> list_all (\<lambda>t. length (label_of t) = k) ts
     \<and> siblings_ok ts \<and> list_all consistent ts)"

text \<open>Forests: the number of nodes, and the store in which a flattened forest has been
  linked up.\<close>

fun fsize :: "NodeTree list \<Rightarrow> nat" where
  "fsize [] = 0"
| "fsize (Tree (Node t cs l ti nt sx tt) # ts) = Suc (fsize cs + fsize ts)"

fun root_addrs :: "addr \<Rightarrow> NodeTree list \<Rightarrow> addr list" where
  "root_addrs b [] = []"
| "root_addrs b (Tree (Node t cs l ti nt sx tt) # ts) = b # root_addrs (Suc b + fsize cs) ts"






lemma flatten_all_simps [simp]:
  "flatten_all [] = []"
  "flatten_all (Tree (Node t cs l ti nt sx tt) # ts)
     = Node t [] l ti nt sx tt # flatten_all cs @ flatten_all ts"
  "flatten_all (xs @ ys) = flatten_all xs @ flatten_all ys"
  by (simp_all add: flatten_all_def)


lemma length_flatten_all [simp]: "length (flatten_all ts) = fsize ts"
  by (induction ts rule: fsize.induct) simp_all

lemma fsize_append [simp]: "fsize (xs @ ys) = fsize xs + fsize ys"
  using length_flatten_all[of "xs @ ys"] by (simp del: length_flatten_all add: length_flatten_all[symmetric])

lemma root_addrs_append [simp]:
  "root_addrs b (xs @ ys) = root_addrs b xs @ root_addrs (b + fsize xs) ys"
  by (induction b xs rule: root_addrs.induct) (simp_all add: add.assoc)

lemma stored_Nil [simp]: "stored \<sigma> b []"
  by (simp add: stored_def)

lemma stored_Cons [simp]: "stored \<sigma> b (x # xs) \<longleftrightarrow> \<sigma> b = x \<and> stored \<sigma> (Suc b) xs"
proof -
  have "[b ..< b + length (x # xs)] = b # [Suc b ..< Suc b + length xs]"
    by (subst upt_conv_Cons) simp_all
  then show ?thesis by (simp add: stored_def)
qed

lemma stored_append [simp]:
  "stored \<sigma> b (xs @ ys) \<longleftrightarrow> stored \<sigma> b xs \<and> stored \<sigma> (b + length xs) ys"
  by (induction xs arbitrary: b) simp_all





lemma siblings_ok_tail: "siblings_ok (t # ts) \<Longrightarrow> siblings_ok ts"
  by (cases ts) (auto simp: siblings_ok_def)

lemma forest_ok_tail: "forest_ok k (t # ts) \<Longrightarrow> forest_ok k ts"
  by (auto simp: forest_ok_def dest: siblings_ok_tail)

lemma label_of_Tree [simp]: "label_of (Tree (Node t cs l ti nt sx tt)) = l"
  by (simp add: label_of_def)





















subsection \<open>The round trip\<close>






end
